theory Spec2Isabelle
  imports Complex_Main "HOL-Library.Sublist" "HOL-Library.AList"
begin

section \<open>Python values\<close>

text \<open>
  A Python \<open>str\<close> is a sequence of Unicode code points; \<open>len\<close>, slicing, \<open>strip\<close>,
  \<open>split\<close> and the \<open>re\<close> module all work on code points. A string is therefore a list of
  code points (natural numbers). \<open>str\<close> turns an ASCII literal into such a string.
\<close>

type_synonym pystr = "nat list"

type_synonym bytes = "char list"

definition str :: "string \<Rightarrow> pystr" where
  "str s = map of_char s"

definition NL :: nat where "NL = 10"
definition COLON :: nat where "COLON = 58"
definition SLASH :: nat where "SLASH = 47"
definition UNDERSCORE :: nat where "UNDERSCORE = 95"

text \<open>
  \<open>str.isspace\<close> for one code point: the characters \<open>str.strip()\<close> removes when it is
  called with no argument (TAB..CR, FS..US, SPACE, NEL, NBSP, OGHAM SPACE, EN QUAD..HAIR
  SPACE, LINE and PARAGRAPH SEPARATOR, NNBSP, MMSP, IDEOGRAPHIC SPACE).
\<close>

definition py_isspace :: "nat \<Rightarrow> bool" where
  "py_isspace c =
     (c \<in> set [9, 10, 11, 12, 13, 28, 29, 30, 31, 32, 133, 160, 5760,
                8232, 8233, 8239, 8287, 12288]
      \<or> (8192 \<le> c \<and> c \<le> 8202))"

text \<open>\<open>s.strip(...)\<close>: drop the matching characters from the left end, then from the right.\<close>

definition strip_with :: "(nat \<Rightarrow> bool) \<Rightarrow> pystr \<Rightarrow> pystr" where
  "strip_with P s = rev (dropWhile P (rev (dropWhile P s)))"

definition strip_chars :: "pystr \<Rightarrow> pystr \<Rightarrow> pystr" where
  "strip_chars chars s = strip_with (\<lambda>c. c \<in> set chars) s"

definition py_strip :: "pystr \<Rightarrow> pystr" where
  "py_strip s = strip_with py_isspace s"

text \<open>\<open>s.split(sep)\<close> for a one-character separator: \<open>"".split("\n") = [""]\<close>.\<close>

fun py_split :: "nat \<Rightarrow> pystr \<Rightarrow> pystr list" where
  "py_split sep [] = [[]]"
| "py_split sep (c # cs) =
     (if c = sep then [] # py_split sep cs
      else (case py_split sep cs of
              [] \<Rightarrow> [[c]]
            | l # ls \<Rightarrow> (c # l) # ls))"

text \<open>
  \<open>key, val = line.split(sep, 1)\<close> for a line that contains \<open>sep\<close> (the source calls it under
  the guard \<open>if ":" in line\<close>): the part before the first separator and the part after it.
\<close>

definition split_first :: "nat \<Rightarrow> pystr \<Rightarrow> pystr \<times> pystr" where
  "split_first sep line =
     (takeWhile (\<lambda>c. c \<noteq> sep) line, drop 1 (dropWhile (\<lambda>c. c \<noteq> sep) line))"

text \<open>\<open>s.replace(old, new)\<close>: every non-overlapping occurrence, scanning from the left.\<close>

function py_replace :: "pystr \<Rightarrow> pystr \<Rightarrow> pystr \<Rightarrow> pystr" where
  "py_replace old new [] = (if old = [] then new else [])"
| "py_replace old new (c # cs) =
     (if old = [] then new @ c # py_replace old new cs
      else if prefix old (c # cs)
        then new @ py_replace old new (drop (length old - 1) cs)
        else c # py_replace old new cs)"
  by pat_completeness auto
termination
  by (relation "measure (\<lambda>(old, new, s). length s)") (auto simp: less_Suc_eq_le)

text \<open>\<open>os.path.join(a, b)\<close> of \<open>posixpath\<close>.\<close>

definition os_path_join :: "pystr \<Rightarrow> pystr \<Rightarrow> pystr" where
  "os_path_join a b =
     (if prefix [SLASH] b then b
      else if a = [] \<or> suffix [SLASH] a then a @ b
      else a @ [SLASH] @ b)"

text \<open>A JSON value, as \<open>Response.json()\<close> returns it; an object keeps its insertion order.\<close>

datatype json =
  JNull | JBool bool | JNum rat | JStr pystr | JArr "json list" | JObj "(pystr \<times> json) list"

type_synonym 'v pydict = "(pystr \<times> 'v) list"

text \<open>\<open>d[k] = v\<close> and \<open>d.get(k, default)\<close> on an insertion-ordered \<open>dict\<close>.\<close>

definition dict_set :: "'v pydict \<Rightarrow> pystr \<Rightarrow> 'v \<Rightarrow> 'v pydict" where
  "dict_set d k v = AList.update k v d"

definition dict_get :: "'v pydict \<Rightarrow> pystr \<Rightarrow> 'v \<Rightarrow> 'v" where
  "dict_get d k dflt = (case map_of d k of None \<Rightarrow> dflt | Some v \<Rightarrow> v)"


section \<open>Exceptions, external calls and the trace\<close>

text \<open>
  Every raise of the program is a value. The exceptions of the libraries the program calls
  are grouped by what the program can tell apart: none of them is caught selectively, so
  their payload is kept only where the source fixes it.
\<close>

datatype exn =
  ConnectionError
| Timeout
| HTTPError nat
| RuntimeError pystr
| OSError
| ValueError
| TypeError
| LibraryError pystr

record entry =
  title :: pystr
  entry_id :: pystr

record response =
  status_code :: nat
  content :: bytes

record style =
  style_name :: pystr
  style_id :: int

record speaker =
  speaker_name :: pystr
  styles :: "style list"

record audioclip =
  audio_source :: pystr
  audio_duration :: rat

text \<open>
  A MoviePy video clip, as far as the program uses one: the images it shows, in order, its
  \<open>duration\<close> attribute in seconds (\<open>None\<close> until it is set) and its audio track.
\<close>

record videoclip =
  images :: "pystr list"
  duration :: "nat option"
  audio :: "audioclip option"

text \<open>One external call of a run, in the order the calls are made.\<close>

datatype event =
  FeedParse pystr
| RequestsGet pystr nat
| FileWrite pystr bytes
| FitzOpen pystr
| GenerateContent pystr
| GetSpeakers
| PostAudioQuery pystr int
| PostSynthesis int "json pydict"
| ImageSave pystr nat nat pystr
| ImageClip pystr
| AudioFileClip pystr
| WriteVideofile pystr videoclip nat

text \<open>
  The world outside the program: what each external call answers. A run asks each service
  at most once for each argument, so a function of the argument describes any run.
  \<open>fitz_open\<close> gives the pages of a document, each with the outcome of its \<open>get_text()\<close>;
  \<open>utc_today\<close> is \<open>datetime.utcnow().strftime("%Y%m%d")\<close>.
\<close>

record env =
  feed_parse :: "pystr \<Rightarrow> exn + entry list"
  requests_get :: "pystr \<Rightarrow> nat \<Rightarrow> exn + response"
  file_write :: "pystr \<Rightarrow> bytes \<Rightarrow> exn + unit"
  fitz_open :: "pystr \<Rightarrow> exn + (exn + pystr) list"
  generate_content :: "pystr \<Rightarrow> exn + pystr"
  get_speakers :: "exn + speaker list"
  post_audio_query :: "pystr \<Rightarrow> int \<Rightarrow> exn + json pydict"
  post_synthesis :: "int \<Rightarrow> json pydict \<Rightarrow> exn + bytes"
  image_save :: "pystr \<Rightarrow> pystr \<Rightarrow> exn + unit"
  image_clip :: "pystr \<Rightarrow> exn + unit"
  audio_file_clip :: "pystr \<Rightarrow> exn + rat"
  write_videofile :: "pystr \<Rightarrow> videoclip \<Rightarrow> nat \<Rightarrow> exn + unit"
  utc_today :: pystr

text \<open>
  A computation yields the calls it made and either the exception it raised or its value.
  \<open>print\<close> writes to the console only and is not traced.
\<close>

type_synonym 'a io = "event list \<times> (exn + 'a)"

definition io_return :: "'a \<Rightarrow> 'a io" where
  "io_return x = ([], Inr x)"

definition io_raise :: "exn \<Rightarrow> 'a io" where
  "io_raise e = ([], Inl e)"

definition io_call :: "event \<Rightarrow> exn + 'a \<Rightarrow> 'a io" where
  "io_call ev answer = ([ev], answer)"

definition io_bind :: "'a io \<Rightarrow> ('a \<Rightarrow> 'b io) \<Rightarrow> 'b io" where
  "io_bind m f =
     (case m of
        (t, Inl e) \<Rightarrow> (t, Inl e)
      | (t, Inr x) \<Rightarrow> (case f x of (t', r) \<Rightarrow> (t @ t', r)))"

text \<open>\<open>try: m  except ...: handler\<close> where the clause catches every exception of \<open>exn\<close>.\<close>

definition io_try :: "'a io \<Rightarrow> (exn \<Rightarrow> 'a io) \<Rightarrow> 'a io" where
  "io_try m handler =
     (case m of
        (t, Inl e) \<Rightarrow> (case handler e of (t', r) \<Rightarrow> (t @ t', r))
      | (t, Inr x) \<Rightarrow> (t, Inr x))"

text \<open>A \<open>for\<close> loop or comprehension that collects one value per element, in order.\<close>

fun io_mapM :: "('a \<Rightarrow> 'b io) \<Rightarrow> 'a list \<Rightarrow> 'b list io" where
  "io_mapM f [] = io_return []"
| "io_mapM f (x # xs) =
     io_bind (f x) (\<lambda>y. io_bind (io_mapM f xs) (\<lambda>ys. io_return (y # ys)))"


section \<open>The program\<close>

definition SAVE_DIR :: pystr where
  "SAVE_DIR = str ''outputs''"

subsection \<open>\<open>safe_filename\<close>\<close>

text \<open>
  The character class \<open>[<>:"/\\|?*\r\n]\<close> of the first \<open>re.sub\<close>:
  \<open><\<close> \<open>>\<close> \<open>:\<close> \<open>"\<close> \<open>/\<close> backslash \<open>|\<close> \<open>?\<close> \<open>*\<close> CR LF.
\<close>

definition unsafe_chars :: "nat list" where
  "unsafe_chars = [60, 62, 58, 34, 47, 92, 124, 63, 42, 13, 10]"

text \<open>\<open>re.sub(r'[<>:"/\\|?*\r\n]', "_", name)\<close>\<close>

definition sub_unsafe :: "pystr \<Rightarrow> pystr" where
  "sub_unsafe name = map (\<lambda>c. if c \<in> set unsafe_chars then UNDERSCORE else c) name"

text \<open>\<open>re.sub(r"_+", "_", name)\<close>: each maximal run of underscores becomes one underscore.\<close>

function sub_runs :: "pystr \<Rightarrow> pystr" where
  "sub_runs [] = []"
| "sub_runs (c # cs) =
     (if c = UNDERSCORE then UNDERSCORE # sub_runs (dropWhile (\<lambda>x. x = UNDERSCORE) cs)
      else c # sub_runs cs)"
  by pat_completeness auto
termination
  by (relation "measure length") (auto simp: length_dropWhile_le less_Suc_eq_le)

definition safe_filename :: "pystr \<Rightarrow> pystr" where
  "safe_filename name = strip_chars [UNDERSCORE] (sub_runs (sub_unsafe name))"

text \<open>No two adjacent underscores: what "repeated separators are collapsed" asks of a result.\<close>

fun no_rep :: "pystr \<Rightarrow> bool" where
  "no_rep (a # b # cs) = (\<not> (a = UNDERSCORE \<and> b = UNDERSCORE) \<and> no_rep (b # cs))"
| "no_rep cs = True"

subsection \<open>\<open>fetch_arxiv_papers\<close>\<close>

text \<open>The query URL; the middle part is \<open>quote_plus(raw_query)\<close>.\<close>

definition feed_url :: pystr where
  "feed_url =
     str ''http://export.arxiv.org/api/query?search_query=''
     @ str ''cat%3Acs.AI+OR+cat%3Acs.LG+OR+cat%3Acs.CL+OR+cat%3Acs.CV+OR+cat%3Astat.ML''
     @ str ''&start=0&max_results=3&sortBy=submittedDate&sortOrder=descending''"

definition fetch_arxiv_papers :: "env \<Rightarrow> entry list io" where
  "fetch_arxiv_papers env = io_call (FeedParse feed_url) (feed_parse env feed_url)"

subsection \<open>\<open>download_pdf\<close>\<close>

text \<open>\<open>Response.raise_for_status()\<close> raises for a 4xx or 5xx status code.\<close>

definition raise_for_status :: "response \<Rightarrow> unit io" where
  "raise_for_status res =
     (if 400 \<le> status_code res \<and> status_code res < 600
      then io_raise (HTTPError (status_code res)) else io_return ())"

definition download_pdf :: "env \<Rightarrow> pystr \<Rightarrow> pystr \<Rightarrow> pystr option io" where
  "download_pdf env pdf_url filename =
     io_bind
       (io_try
          (io_bind (io_call (RequestsGet pdf_url 20) (requests_get env pdf_url 20)) (\<lambda>res.
           io_bind (raise_for_status res) (\<lambda>_.
           io_return (Some res))))
          (\<lambda>e. io_return None))
       (\<lambda>got. case got of
          None \<Rightarrow> io_return None
        | Some res \<Rightarrow>
            (let path = os_path_join SAVE_DIR filename in
             io_bind (io_call (FileWrite path (content res)) (file_write env path (content res)))
               (\<lambda>_. io_return (Some path))))"

subsection \<open>\<open>extract_text\<close>\<close>

text \<open>\<open>[p.get_text() for p in doc]\<close>: the texts in page order, or the first exception.\<close>

fun page_texts :: "(exn + pystr) list \<Rightarrow> exn + pystr list" where
  "page_texts [] = Inr []"
| "page_texts (Inl e # ps) = Inl e"
| "page_texts (Inr t # ps) =
     (case page_texts ps of Inl e \<Rightarrow> Inl e | Inr ts \<Rightarrow> Inr (t # ts))"

definition extract_text :: "env \<Rightarrow> pystr option \<Rightarrow> pystr io" where
  "extract_text env pdf_path =
     (case pdf_path of
        None \<Rightarrow> io_return []
      | Some p \<Rightarrow>
          if p = [] then io_return []
          else io_try
                 (io_bind (io_call (FitzOpen p) (fitz_open env p)) (\<lambda>doc.
                  io_bind ([], page_texts doc) (\<lambda>texts.
                  io_return (concat texts))))
                 (\<lambda>e. io_return []))"

subsection \<open>\<open>summarize_text_ja\<close>\<close>

definition MAX_CHARS :: nat where
  "MAX_CHARS = 5000"

text \<open>The prompt's fixed text before \<open>{text}\<close>; after it comes one newline.\<close>

definition summary_head :: pystr where
  "summary_head =
     [10, 20197, 19979, 12398, 33521, 35486, 35542, 25991, 12398, 20869, 23481, 12434,
      12289, 26085, 26412, 35486, 12391, 31777, 28500, 12395, 51, 28857, 12395, 35201,
      32004, 12375, 12390, 12367, 12384, 12373, 12356, 12290, 10, 10]"

definition summary_prompt :: "pystr \<Rightarrow> pystr" where
  "summary_prompt text = summary_head @ text @ [NL]"

definition summarize_text_ja :: "env \<Rightarrow> pystr \<Rightarrow> pystr io" where
  "summarize_text_ja env text =
     (let text = (if length text > MAX_CHARS then take MAX_CHARS text else text);
          prompt = summary_prompt text
      in io_bind (io_call (GenerateContent prompt) (generate_content env prompt)) (\<lambda>response.
         io_return (py_strip response)))"

subsection \<open>\<open>get_speaker_id\<close> and \<open>voicevox_tts\<close>\<close>

definition DEFAULT_NAME :: pystr where
  "DEFAULT_NAME = [22235, 22269, 12417, 12383, 12435]"

definition DEFAULT_STYLE :: pystr where
  "DEFAULT_STYLE = [12494, 12540, 12510, 12523]"

definition DEFAULT_SPEED :: rat where
  "DEFAULT_SPEED = 11 / 10"

text \<open>The message of the \<open>RuntimeError\<close> that \<open>voicevox_tts\<close> raises.\<close>

definition voice_not_found :: exn where
  "voice_not_found =
     RuntimeError [22235, 22269, 12417, 12383, 12435, 12364, 35211, 12388, 12363, 12426,
                   12414, 12379, 12435]"

fun find_style :: "style list \<Rightarrow> pystr \<Rightarrow> int option" where
  "find_style [] sty = None"
| "find_style (st # sts) sty =
     (if style_name st = sty then Some (style_id st) else find_style sts sty)"

fun find_speaker :: "speaker list \<Rightarrow> pystr \<Rightarrow> pystr \<Rightarrow> int option" where
  "find_speaker [] name sty = None"
| "find_speaker (sp # sps) name sty =
     (if speaker_name sp = name
      then (case find_style (styles sp) sty of
              Some i \<Rightarrow> Some i
            | None \<Rightarrow> find_speaker sps name sty)
      else find_speaker sps name sty)"

definition get_speaker_id :: "env \<Rightarrow> pystr \<Rightarrow> pystr \<Rightarrow> int option io" where
  "get_speaker_id env name sty =
     io_bind (io_call GetSpeakers (get_speakers env)) (\<lambda>data.
     io_return (find_speaker data name sty))"

definition voicevox_tts :: "env \<Rightarrow> pystr \<Rightarrow> pystr \<Rightarrow> rat \<Rightarrow> pystr io" where
  "voicevox_tts env text filename speed =
     io_bind (get_speaker_id env DEFAULT_NAME DEFAULT_STYLE) (\<lambda>found.
     case found of
       None \<Rightarrow> io_raise voice_not_found
     | Some speaker \<Rightarrow>
         (let cleaned = py_replace (str ''**'') [] text in
          io_bind (io_call (PostAudioQuery cleaned speaker)
                     (post_audio_query env cleaned speaker)) (\<lambda>query.
          let query = dict_set query (str ''speedScale'') (JNum speed) in
          io_bind (io_call (PostSynthesis speaker query)
                     (post_synthesis env speaker query)) (\<lambda>audio_content.
          let path = os_path_join SAVE_DIR filename in
          io_bind (io_call (FileWrite path audio_content) (file_write env path audio_content))
            (\<lambda>_. io_return path)))))"

subsection \<open>\<open>build_slide_structure\<close>\<close>

definition outline_head :: pystr where
  "outline_head =
     [10, 27425, 12398, 35542, 25991, 12395, 12388, 12356, 12390, 12289, 21205, 30011,
      29992, 53, 12473, 12521, 12452, 12489, 12395, 25972, 29702, 12375, 12390, 12367,
      12384, 12373, 12356, 65306, 10, 10]
     @ str ''1. TITLE'' @ [NL] @ str ''2. PURPOSE'' @ [NL] @ str ''3. METHOD'' @ [NL]
     @ str ''4. RESULT'' @ [NL] @ str ''5. CONCLUSION'' @ [NL, NL]
     @ [12479, 12452, 12488, 12523, 58, 10]"

definition outline_mid :: pystr where
  "outline_mid = [10, 10, 35201, 32004, 58, 10]"

definition outline_prompt :: "pystr \<Rightarrow> pystr \<Rightarrow> pystr" where
  "outline_prompt ttl summary = outline_head @ ttl @ outline_mid @ summary @ [NL]"

text \<open>The body of \<open>for line in res.split("\n")\<close>.\<close>

definition outline_line :: "pystr pydict \<Rightarrow> pystr \<Rightarrow> pystr pydict" where
  "outline_line slides line =
     (if COLON \<in> set line
      then (case split_first COLON line of
              (key, val) \<Rightarrow> dict_set slides (py_strip key) (py_strip val))
      else slides)"

definition parse_outline :: "pystr \<Rightarrow> pystr pydict" where
  "parse_outline res = foldl outline_line [] (py_split NL res)"

definition build_slide_structure :: "env \<Rightarrow> pystr \<Rightarrow> pystr \<Rightarrow> pystr pydict io" where
  "build_slide_structure env ttl summary =
     (let prompt = outline_prompt ttl summary in
      io_bind (io_call (GenerateContent prompt) (generate_content env prompt)) (\<lambda>res.
      io_return (parse_outline res)))"

subsection \<open>\<open>create_slide_image\<close>\<close>

definition create_slide_image :: "env \<Rightarrow> pystr \<Rightarrow> pystr \<Rightarrow> pystr io" where
  "create_slide_image env text filename =
     io_bind (io_call (ImageSave filename 1920 1080 text) (image_save env filename text))
       (\<lambda>_. io_return filename)"

subsection \<open>\<open>generate_video\<close>\<close>

text \<open>
  The MoviePy operations the program uses: \<open>set_duration\<close> sets the attribute,
  \<open>concatenate_videoclips\<close> plays the clips one after the other, so its result lasts the sum
  of their durations, and \<open>set_audio\<close> attaches the track and leaves the duration alone.
  \<open>concatenate_videoclips\<close> adds the durations up first, which raises \<open>TypeError\<close> when one
  of them is \<open>None\<close>, and then takes the largest frame size, which raises \<open>ValueError\<close> for
  an empty list.
\<close>

definition new_image_clip :: "pystr \<Rightarrow> videoclip" where
  "new_image_clip p = \<lparr>images = [p], duration = None, audio = None\<rparr>"

definition set_duration :: "videoclip \<Rightarrow> nat \<Rightarrow> videoclip" where
  "set_duration clip d = clip\<lparr>duration := Some d\<rparr>"

definition concatenate_videoclips :: "videoclip list \<Rightarrow> exn + videoclip" where
  "concatenate_videoclips clips =
     (case those (map duration clips) of
        None \<Rightarrow> Inl TypeError
      | Some ds \<Rightarrow>
          if clips = [] then Inl ValueError
          else Inr \<lparr>images = concat (map images clips),
                    duration = Some (sum_list ds),
                    audio = None\<rparr>)"

definition set_audio :: "videoclip \<Rightarrow> audioclip \<Rightarrow> videoclip" where
  "set_audio clip a = clip\<lparr>audio := Some a\<rparr>"

definition generate_video :: "env \<Rightarrow> pystr list \<Rightarrow> pystr \<Rightarrow> pystr \<Rightarrow> pystr io" where
  "generate_video env slide_paths audio_path output_path =
     io_bind
       (io_mapM (\<lambda>p. io_bind (io_call (ImageClip p) (image_clip env p)) (\<lambda>_.
                      io_return (set_duration (new_image_clip p) 4)))
          slide_paths) (\<lambda>clips.
     io_bind ([], concatenate_videoclips clips) (\<lambda>video.
     io_bind (io_call (AudioFileClip audio_path) (audio_file_clip env audio_path)) (\<lambda>d.
     let final = set_audio video \<lparr>audio_source = audio_path, audio_duration = d\<rparr> in
     io_bind (io_call (WriteVideofile output_path final 24)
                (write_videofile env output_path final 24))
       (\<lambda>_. io_return output_path))))"

subsection \<open>\<open>main\<close>\<close>

text \<open>How \<open>main\<close> ended: at the early \<open>return\<close> for an empty feed, or after the video.\<close>

datatype outcome = NoWork | Done pystr

definition SECTION_KEYS :: "pystr list" where
  "SECTION_KEYS =
     [str ''TITLE'', str ''PURPOSE'', str ''METHOD'', str ''RESULT'', str ''CONCLUSION'']"

definition slide_path :: "pystr \<Rightarrow> pystr" where
  "slide_path key = os_path_join SAVE_DIR (key @ str ''.png'')"

definition narration_name :: "pystr \<Rightarrow> pystr" where
  "narration_name today = str ''narration_'' @ today @ str ''.wav''"

definition video_path_of :: "pystr \<Rightarrow> pystr" where
  "video_path_of today = os_path_join SAVE_DIR (str ''paper_video_'' @ today @ str ''.mp4'')"

definition pdf_url_of :: "entry \<Rightarrow> pystr" where
  "pdf_url_of e = py_replace (str ''abs'') (str ''pdf'') (entry_id e) @ str ''.pdf''"

text \<open>The slide loop of \<open>main\<close>.\<close>

definition render_slides :: "env \<Rightarrow> pystr pydict \<Rightarrow> pystr list io" where
  "render_slides env structure =
     io_mapM (\<lambda>key.
        let msg = key @ [NL, NL] @ dict_get structure key [];
            path = slide_path key
        in io_bind (create_slide_image env msg path) (\<lambda>_. io_return path))
       SECTION_KEYS"

text \<open>\<open>main\<close> from \<open>summary = summarize_text_ja(text)\<close> to its end.\<close>

definition process_text :: "env \<Rightarrow> pystr \<Rightarrow> pystr \<Rightarrow> outcome io" where
  "process_text env raw_title text =
     io_bind (summarize_text_ja env text) (\<lambda>summary.
     io_bind (build_slide_structure env raw_title summary) (\<lambda>structure.
     io_bind (render_slides env structure) (\<lambda>slide_files.
     let today = utc_today env in
     io_bind (voicevox_tts env summary (narration_name today) DEFAULT_SPEED) (\<lambda>audio_path.
     let video_path = video_path_of today in
     io_bind (generate_video env slide_files audio_path video_path) (\<lambda>_.
     io_return (Done video_path))))))"

text \<open>\<open>main\<close> from \<open>entry = papers[0]\<close> on, for that entry.\<close>

definition process_entry :: "env \<Rightarrow> entry \<Rightarrow> outcome io" where
  "process_entry env e =
     (let raw_title = title e;
          filename = safe_filename raw_title;
          pdf_url = pdf_url_of e
      in io_bind (download_pdf env pdf_url (filename @ str ''.pdf'')) (\<lambda>pdf_path.
         io_bind (extract_text env pdf_path) (\<lambda>text.
         process_text env raw_title text)))"

definition main :: "env \<Rightarrow> outcome io" where
  "main env =
     io_bind (fetch_arxiv_papers env) (\<lambda>papers.
     case papers of
       [] \<Rightarrow> io_return NoWork
     | e # _ \<Rightarrow> process_entry env e)"


section \<open>Notions the properties are stated with\<close>




text \<open>The paths a run writes to, in order, read off its trace.\<close>

fun written_path :: "event \<Rightarrow> pystr option" where
  "written_path (FileWrite p b) = Some p"
| "written_path (ImageSave p w h t) = Some p"
| "written_path (WriteVideofile p c f) = Some p"
| "written_path ev = None"

definition written_paths :: "event list \<Rightarrow> pystr list" where
  "written_paths t = List.map_filter written_path t"

text \<open>
  How long the file lasts that \<open>write_videofile\<close> produces for a clip: MoviePy renders the
  frames for the clip's whole duration and the audio track for the track's whole duration,
  and the two streams are put into the file without cutting either, so the file lasts as
  long as the longer of them.
\<close>

definition written_duration :: "videoclip \<Rightarrow> rat option" where
  "written_duration clip =
     (case duration clip of
        None \<Rightarrow> None
      | Some d \<Rightarrow>
          (case audio clip of
             None \<Rightarrow> Some (of_nat d)
           | Some a \<Rightarrow> Some (max (of_nat d) (audio_duration a))))"

text \<open>The paths \<open>download_pdf\<close> and \<open>voicevox_tts\<close> build from the names \<open>main\<close> gives them.\<close>

definition pdf_path_of :: "entry \<Rightarrow> pystr" where
  "pdf_path_of e = os_path_join SAVE_DIR (safe_filename (title e) @ str ''.pdf'')"

definition narration_path :: "pystr \<Rightarrow> pystr" where
  "narration_path today = os_path_join SAVE_DIR (narration_name today)"

text \<open>
  Two concrete worlds for the examples: one where the feed is empty and every service is
  down, and one where the feed holds one paper, its download times out and every other
  service answers; the generative service always answers \<open>demo_response\<close>.
\<close>

definition offline_env :: env where
  "offline_env =
     \<lparr>feed_parse = (\<lambda>url. Inr []),
      requests_get = (\<lambda>url timeout. Inl ConnectionError),
      file_write = (\<lambda>path data. Inl OSError),
      fitz_open = (\<lambda>path. Inl (LibraryError [])),
      generate_content = (\<lambda>prompt. Inl (LibraryError [])),
      get_speakers = Inl ConnectionError,
      post_audio_query = (\<lambda>text speaker. Inl ConnectionError),
      post_synthesis = (\<lambda>speaker query. Inl ConnectionError),
      image_save = (\<lambda>path text. Inl OSError),
      image_clip = (\<lambda>path. Inl OSError),
      audio_file_clip = (\<lambda>path. Inl OSError),
      write_videofile = (\<lambda>path clip fps. Inl OSError),
      utc_today = str ''20240101''\<rparr>"

definition demo_response :: pystr where
  "demo_response =
     str ''  Outline'' @ [NL] @ str ''METHOD: old'' @ [NL] @ str ''METHOD: uses X'' @ [NL]"

definition demo_entry :: "pystr \<Rightarrow> entry" where
  "demo_entry ttl = \<lparr>title = ttl, entry_id = str ''http://arxiv.org/abs/2401.00001v1''\<rparr>"

definition demo_env :: "pystr \<Rightarrow> pystr \<Rightarrow> env" where
  "demo_env today ttl =
     \<lparr>feed_parse = (\<lambda>url. Inr [demo_entry ttl]),
      requests_get = (\<lambda>url timeout. Inl Timeout),
      file_write = (\<lambda>path data. Inr ()),
      fitz_open = (\<lambda>path. Inl (LibraryError [])),
      generate_content = (\<lambda>prompt. Inr demo_response),
      get_speakers =
        Inr [\<lparr>speaker_name = DEFAULT_NAME,
              styles = [\<lparr>style_name = DEFAULT_STYLE, style_id = 2\<rparr>]\<rparr>],
      post_audio_query = (\<lambda>text speaker. Inr []),
      post_synthesis = (\<lambda>speaker query. Inr []),
      image_save = (\<lambda>path text. Inr ()),
      image_clip = (\<lambda>path. Inr ()),
      audio_file_clip = (\<lambda>path. Inr 30),
      write_videofile = (\<lambda>path clip fps. Inr ()),
      utc_today = today\<rparr>"


section \<open>Properties of \<open>safe_filename\<close>\<close>

subsection \<open>Stripping\<close>

lemma rstrip_prefix: "rev (dropWhile P (rev s)) @ rev (takeWhile P (rev s)) = s"
proof -
  have "rev (takeWhile P (rev s) @ dropWhile P (rev s)) = s" by simp
  then show ?thesis by (simp only: rev_append)
qed

lemma strip_with_decomp:
  "s = takeWhile P s @ strip_with P s @ rev (takeWhile P (rev (dropWhile P s)))"
proof -
  let ?t = "dropWhile P s"
  have "s = takeWhile P s @ ?t" by simp
  moreover have "?t = strip_with P s @ rev (takeWhile P (rev ?t))"
    unfolding strip_with_def by (rule rstrip_prefix [symmetric])
  ultimately show ?thesis by simp
qed

lemma set_strip_with: "set (strip_with P s) \<subseteq> set s"
  by (auto simp: strip_with_def dest!: set_dropWhileD)

lemma strip_with_ends:
  "strip_with P s = [] \<or> (\<not> P (hd (strip_with P s)) \<and> \<not> P (last (strip_with P s)))"
proof (cases "strip_with P s = []")
  case True
  then show ?thesis by simp
next
  case False
  let ?t = "dropWhile P s"
  let ?u = "dropWhile P (rev ?t)"
  have u: "strip_with P s = rev ?u" by (simp add: strip_with_def)
  with False have une: "?u \<noteq> []" by simp
  then have "\<not> P (hd ?u)" by (rule hd_dropWhile)
  then have l: "\<not> P (last (strip_with P s))"
    using une by (simp add: u last_rev)
  have tne: "?t \<noteq> []"
  proof
    assume "?t = []"
    then have "?u = []" by (simp only: rev.simps dropWhile.simps)
    with une show False by contradiction
  qed
  then have ht: "\<not> P (hd ?t)" by (rule hd_dropWhile)
  have "?t = rev ?u @ rev (takeWhile P (rev ?t))"
    by (rule rstrip_prefix [symmetric])
  then have "hd ?t = hd (rev ?u)" using une
    by (metis hd_append2 rev_is_Nil_conv)
  with ht have "\<not> P (hd (strip_with P s))" by (simp add: u)
  with l show ?thesis by simp
qed

lemma strip_with_id:
  assumes "s = [] \<or> (\<not> P (hd s) \<and> \<not> P (last s))"
  shows "strip_with P s = s"
proof (cases "s = []")
  case True
  then show ?thesis by (simp add: strip_with_def)
next
  case False
  with assms have h: "\<not> P (hd s)" and l: "\<not> P (last s)" by auto
  from False h have 1: "dropWhile P s = s"
    by (simp add: dropWhile_eq_self_iff)
  from False l have 2: "dropWhile P (rev s) = rev s"
    by (simp add: dropWhile_eq_self_iff hd_rev)
  show ?thesis by (simp add: strip_with_def 1 2)
qed

subsection \<open>The two substitutions\<close>

lemma set_sub_unsafe: "set (sub_unsafe s) \<inter> set unsafe_chars = {}"
  by (auto simp: sub_unsafe_def unsafe_chars_def UNDERSCORE_def)

lemma sub_unsafe_id: "set s \<inter> set unsafe_chars = {} \<Longrightarrow> sub_unsafe s = s"
  unfolding sub_unsafe_def by (rule map_idI) auto

lemma set_sub_runs: "set (sub_runs s) \<subseteq> set s"
  by (induction s rule: sub_runs.induct) (auto dest: set_dropWhileD)

lemma sub_runs_Nil_iff: "sub_runs s = [] \<longleftrightarrow> s = []"
  by (cases s) auto

lemma hd_sub_runs: "hd (sub_runs s) = hd s"
  by (cases s) auto

lemma no_rep_Cons:
  "no_rep (a # s) \<longleftrightarrow> (s = [] \<or> \<not> (a = UNDERSCORE \<and> hd s = UNDERSCORE)) \<and> no_rep s"
  by (cases s) auto

lemma no_rep_sub_runs: "no_rep (sub_runs s)"
proof (induction s rule: sub_runs.induct)
  case 1
  show ?case by simp
next
  case (2 c cs)
  show ?case
  proof (cases "c = UNDERSCORE")
    case True
    let ?d = "dropWhile (\<lambda>x. x = UNDERSCORE) cs"
    have "?d = [] \<or> hd ?d \<noteq> UNDERSCORE"
      using hd_dropWhile [of "\<lambda>x. x = UNDERSCORE" cs] by blast
    with True 2 show ?thesis
      by (simp add: no_rep_Cons sub_runs_Nil_iff hd_sub_runs)
  next
    case False
    with 2 show ?thesis by (simp add: no_rep_Cons)
  qed
qed

lemma sub_runs_id: "no_rep s \<Longrightarrow> sub_runs s = s"
proof (induction s rule: no_rep.induct)
  case (1 a b cs)
  then show ?case by auto
qed auto

lemma no_rep_append: "no_rep (xs @ ys) \<Longrightarrow> no_rep xs \<and> no_rep ys"
proof (induction xs)
  case Nil
  then show ?case by simp
next
  case (Cons a xs)
  then show ?case by (cases xs) (auto simp: no_rep_Cons)
qed

lemma no_rep_strip_with:
  assumes "no_rep s"
  shows "no_rep (strip_with P s)"
proof -
  from assms have "no_rep (takeWhile P s @ strip_with P s @ rev (takeWhile P (rev (dropWhile P s))))"
    using strip_with_decomp [of s P] by simp
  then show ?thesis using no_rep_append by blast
qed

lemma set_safe_filename: "set (safe_filename s) \<inter> set unsafe_chars = {}"
proof -
  have "set (safe_filename s) \<subseteq> set (sub_unsafe s)"
    unfolding safe_filename_def strip_chars_def using set_strip_with set_sub_runs by blast
  then show ?thesis using set_sub_unsafe [of s] by blast
qed

lemma no_rep_safe_filename: "no_rep (safe_filename s)"
  unfolding safe_filename_def strip_chars_def
  by (rule no_rep_strip_with) (rule no_rep_sub_runs)

lemma safe_filename_ends:
  "safe_filename s = []
   \<or> (hd (safe_filename s) \<noteq> UNDERSCORE \<and> last (safe_filename s) \<noteq> UNDERSCORE)"
  using strip_with_ends [of "\<lambda>c. c \<in> set [UNDERSCORE]" "sub_runs (sub_unsafe s)"]
  by (simp add: safe_filename_def strip_chars_def)

lemmas eval_str = str_def UNDERSCORE_def NL_def COLON_def SLASH_def

lemmas eval_safe_filename =
  safe_filename_def strip_chars_def strip_with_def sub_unsafe_def unsafe_chars_def eval_str

text \<open>
  C1 (as the code has it). For the title \<open>A/B: Test?\<close> the function returns \<open>A_B_ Test\<close>: the
  slash, the colon and the question mark are in the unsafe class and become underscores, the
  space is not in the class and stays. For every title, the result holds no character of the
  unsafe class, no two adjacent underscores, and neither starts nor ends with an underscore.
\<close>

theorem safe_filename_scenario:
  "safe_filename (str ''A/B: Test?'') = str ''A_B_ Test''
   \<and> set (safe_filename s) \<inter> set unsafe_chars = {}
   \<and> no_rep (safe_filename s)
   \<and> \<not> prefix [UNDERSCORE] (safe_filename s)
   \<and> \<not> suffix [UNDERSCORE] (safe_filename s)"
proof -
  have 1: "safe_filename (str ''A/B: Test?'') = str ''A_B_ Test''"
    by (simp add: eval_safe_filename)
  have 2: "\<not> prefix [UNDERSCORE] (safe_filename s)"
    using safe_filename_ends [of s] by (auto simp: prefix_def)
  have 3: "\<not> suffix [UNDERSCORE] (safe_filename s)"
    using safe_filename_ends [of s] by (auto simp: suffix_def)
  from 1 2 3 show ?thesis
    by (simp add: set_safe_filename no_rep_safe_filename)
qed

text \<open>
  C1 as the specification words it: the result for \<open>A/B: Test?\<close> is not \<open>A_B_Test\<close>.
\<close>

theorem safe_filename_scenario_counterexample:
  "safe_filename (str ''A/B: Test?'') \<noteq> str ''A_B_Test''"
  by (simp add: eval_safe_filename)

text \<open>
  C10. \<open>safe_filename\<close> is idempotent: sanitizing a sanitized name changes nothing.
\<close>

theorem safe_filename_idempotent:
  "safe_filename (safe_filename s) = safe_filename s"
proof -
  let ?r = "safe_filename s"
  have 1: "sub_unsafe ?r = ?r"
    by (rule sub_unsafe_id) (rule set_safe_filename)
  have 2: "sub_runs ?r = ?r"
    by (rule sub_runs_id) (rule no_rep_safe_filename)
  have 3: "strip_chars [UNDERSCORE] ?r = ?r"
    unfolding strip_chars_def
    by (rule strip_with_id) (use safe_filename_ends [of s] in simp)
  show ?thesis
    by (simp add: safe_filename_def [of ?r] 1 2 3)
qed


section \<open>Lemmas about the stages\<close>


lemma io_bind_call_Inr: "a = Inr x \<Longrightarrow> io_bind (io_call ev a) f = (ev # fst (f x), snd (f x))"
  by (simp add: io_bind_def io_call_def split: prod.splits)

lemma io_bind_call_Inl: "a = Inl e \<Longrightarrow> io_bind (io_call ev a) f = ([ev], Inl e)"
  by (simp add: io_bind_def io_call_def)

lemmas io_defs = io_bind_def io_call_def io_return_def io_raise_def io_try_def

lemma download_pdf_get_fails:
  assumes "requests_get env url 20 = Inl e"
  shows "download_pdf env url fn = ([RequestsGet url 20], Inr None)"
  using assms
  by (simp add: download_pdf_def io_defs)

lemma download_pdf_bad_status:
  assumes "requests_get env url 20 = Inr res" "400 \<le> status_code res" "status_code res < 600"
  shows "download_pdf env url fn = ([RequestsGet url 20], Inr None)"
  using assms
  by (simp add: download_pdf_def raise_for_status_def io_defs)

lemma extract_text_None: "extract_text env None = ([], Inr [])"
  by (simp add: extract_text_def io_return_def)

lemma extract_text_returns: "\<exists>t s. extract_text env p = (t, Inr s)"
  by (auto simp: extract_text_def io_return_def io_try_def io_bind_def io_call_def
      split: option.splits sum.splits prod.splits)

lemma extract_text_open_fails:
  "fitz_open env path = Inl e \<Longrightarrow> snd (extract_text env (Some path)) = Inr []"
  by (simp add: extract_text_def io_return_def io_try_def io_bind_def io_call_def)

lemma extract_text_page_fails:
  "fitz_open env path = Inr doc \<Longrightarrow> page_texts doc = Inl e \<Longrightarrow> snd (extract_text env (Some path)) = Inr []"
  by (simp add: extract_text_def io_return_def io_try_def io_bind_def io_call_def)

lemma extract_text_ok:
  "path \<noteq> [] \<Longrightarrow> fitz_open env path = Inr doc \<Longrightarrow> page_texts doc = Inr ts \<Longrightarrow> extract_text env (Some path) = ([FitzOpen path], Inr (concat ts))"
  by (simp add: extract_text_def io_return_def io_try_def io_bind_def io_call_def)

lemma summarize_trace:
  "fst (summarize_text_ja env text) = [GenerateContent (summary_prompt (take MAX_CHARS text))]"
  by (simp add: summarize_text_ja_def Let_def io_bind_def io_call_def io_return_def split: sum.splits)

lemma summarize_result:
  "generate_content env (summary_prompt (take MAX_CHARS text)) = Inr r \<Longrightarrow>
   snd (summarize_text_ja env text) = Inr (py_strip r)"
  by (cases "MAX_CHARS < length text") (simp_all add: summarize_text_ja_def Let_def io_defs)

lemma find_style_None: "(\<forall>st\<in>set sts. style_name st \<noteq> sty) \<Longrightarrow> find_style sts sty = None"
  by (induction sts) auto

lemma find_style_Some: "find_style sts sty = Some i \<Longrightarrow> \<exists>st\<in>set sts. style_name st = sty \<and> style_id st = i"
  by (induction sts) (auto split: if_splits)

lemma find_speaker_None:
  "\<not> (\<exists>sp\<in>set cat. speaker_name sp = name \<and> (\<exists>st\<in>set (styles sp). style_name st = sty))
   \<Longrightarrow> find_speaker cat name sty = None"
  by (induction cat) (auto simp: find_style_None)

lemma find_speaker_Some:
  "find_speaker cat name sty = Some i \<Longrightarrow>
   \<exists>sp\<in>set cat. speaker_name sp = name \<and> (\<exists>st\<in>set (styles sp). style_name st = sty \<and> style_id st = i)"
  by (induction cat) (auto split: if_splits option.splits dest: find_style_Some)

lemma tts_not_found:
  assumes "get_speakers env = Inr cat" "find_speaker cat DEFAULT_NAME DEFAULT_STYLE = None"
  shows "voicevox_tts env text fn speed = ([GetSpeakers], Inl voice_not_found)"
  using assms
  by (simp add: voicevox_tts_def get_speaker_id_def io_defs)










lemma io_mapM_all_ok:
  "\<forall>x\<in>set xs. f x = ([ev x], Inr (g x)) \<Longrightarrow> io_mapM f xs = (map ev xs, Inr (map g xs))"
  by (induction xs) (simp_all add: io_defs)

lemma those_map_Some: "those (map (\<lambda>x. Some (g x)) xs) = Some (map g xs)"
  by (induction xs) simp_all

lemma concatenate_slides:
  assumes "ps \<noteq> []"
  shows "concatenate_videoclips (map (\<lambda>p. set_duration (new_image_clip p) d) ps)
           = Inr \<lparr>images = ps, duration = Some (length ps * d), audio = None\<rparr>"
proof -
  have 1: "map duration (map (\<lambda>p. set_duration (new_image_clip p) d) ps) = map (\<lambda>p. Some d) ps"
    by (simp add: set_duration_def new_image_clip_def)
  have 2: "concat (map images (map (\<lambda>p. set_duration (new_image_clip p) d) ps)) = ps"
    by (induction ps) (simp_all add: set_duration_def new_image_clip_def)
  from assms show ?thesis
    unfolding concatenate_videoclips_def 1 2
    by (simp add: those_map_Some sum_list_triv)
qed

lemmas eval_run =
  main_def process_entry_def fetch_arxiv_papers_def download_pdf_def extract_text_def process_text_def
  summarize_text_ja_def build_slide_structure_def render_slides_def create_slide_image_def
  voicevox_tts_def get_speaker_id_def generate_video_def concatenate_videoclips_def
  set_duration_def new_image_clip_def set_audio_def io_defs Let_def
  written_paths_def List.map_filter_def



lemma io_bind_InrE:
  assumes "io_bind m f = (t, Inr y)"
  obtains t1 x t2 where "m = (t1, Inr x)" "f x = (t2, Inr y)" "t = t1 @ t2"
  using assms by (auto simp: io_bind_def split: prod.splits sum.splits)

lemma written_paths_append: "written_paths (a @ b) = written_paths a @ written_paths b"
  by (simp add: written_paths_def List.map_filter_def)

lemma written_paths_Nil: "written_paths [] = []"
  by (simp add: written_paths_def List.map_filter_def)

lemma download_pdf_written:
  "download_pdf env url fn = (t, Inr r) \<Longrightarrow>
   (r = None \<and> written_paths t = [])
   \<or> (r = Some (os_path_join SAVE_DIR fn) \<and> written_paths t = [os_path_join SAVE_DIR fn])"
  by (auto simp: download_pdf_def io_defs raise_for_status_def Let_def written_paths_def
      List.map_filter_def split: sum.splits if_splits prod.splits option.splits)

lemma extract_text_written: "written_paths (fst (extract_text env p)) = []"
  by (auto simp: extract_text_def io_defs written_paths_def List.map_filter_def
      split: sum.splits if_splits prod.splits option.splits)

lemma summarize_written: "written_paths (fst (summarize_text_ja env text)) = []"
  by (simp add: summarize_trace written_paths_def List.map_filter_def)

lemma build_written: "written_paths (fst (build_slide_structure env ttl summary)) = []"
  by (auto simp: build_slide_structure_def Let_def io_defs written_paths_def List.map_filter_def
      split: sum.splits)

lemma io_mapM_written:
  assumes "io_mapM f xs = (t, Inr ys)"
    and "\<And>x t' y. f x = (t', Inr y) \<Longrightarrow> written_paths t' = h x \<and> y = g x"
  shows "written_paths t = concat (map h xs) \<and> ys = map g xs"
  using assms(1)
proof (induction xs arbitrary: t ys)
  case Nil
  then show ?case by (simp add: io_defs written_paths_Nil)
next
  case (Cons x xs)
  from Cons.prems [unfolded io_mapM.simps] obtain t1 y t2 where
    1: "f x = (t1, Inr y)" and
    2: "io_bind (io_mapM f xs) (\<lambda>ys. io_return (y # ys)) = (t2, Inr ys)" and
    3: "t = t1 @ t2"
    by (rule io_bind_InrE)
  from 2 obtain t3 zs t4 where
    4: "io_mapM f xs = (t3, Inr zs)" and 5: "io_return (y # zs) = (t4, Inr ys)" and 6: "t2 = t3 @ t4"
    by (rule io_bind_InrE)
  from 5 have 7: "t4 = []" "ys = y # zs" by (auto simp: io_return_def)
  from Cons.IH [OF 4] have 8: "written_paths t3 = concat (map h xs)" "zs = map g xs" by auto
  from assms(2) [OF 1] have 9: "written_paths t1 = h x" "y = g x" by auto
  show ?case by (simp add: 3 6 7 8 9 written_paths_append written_paths_Nil)
qed

lemma render_slides_written:
  assumes "render_slides env structure = (t, Inr ps)"
  shows "written_paths t = map slide_path SECTION_KEYS \<and> ps = map slide_path SECTION_KEYS"
proof -
  have "written_paths t = concat (map (\<lambda>k. [slide_path k]) SECTION_KEYS)
        \<and> ps = map slide_path SECTION_KEYS"
    by (rule io_mapM_written [OF assms [unfolded render_slides_def]])
       (auto simp: create_slide_image_def Let_def io_defs written_paths_def List.map_filter_def
          split: sum.splits)
  then show ?thesis by (simp add: SECTION_KEYS_def)
qed

lemma voicevox_tts_written:
  "voicevox_tts env text fn speed = (t, Inr p) \<Longrightarrow>
   p = os_path_join SAVE_DIR fn \<and> written_paths t = [p]"
  by (auto simp: voicevox_tts_def get_speaker_id_def Let_def io_defs written_paths_def
      List.map_filter_def split: sum.splits option.splits prod.splits)

lemma generate_video_written:
  assumes "generate_video env slides a out = (t, Inr p)"
  shows "p = out \<and> written_paths t = [out]"
proof -
  from assms [unfolded generate_video_def Let_def] obtain t1 clips t2 where
    1: "io_mapM (\<lambda>p. io_bind (io_call (ImageClip p) (image_clip env p))
           (\<lambda>_. io_return (set_duration (new_image_clip p) 4))) slides = (t1, Inr clips)"
    and 2: "io_bind ([], concatenate_videoclips clips) (\<lambda>video.
       io_bind (io_call (AudioFileClip a) (audio_file_clip env a)) (\<lambda>d.
       io_bind (io_call (WriteVideofile out
                  (set_audio video \<lparr>audio_source = a, audio_duration = d\<rparr>) 24)
                (write_videofile env out
                  (set_audio video \<lparr>audio_source = a, audio_duration = d\<rparr>) 24))
         (\<lambda>_. io_return out))) = (t2, Inr p)"
    and 3: "t = t1 @ t2"
    by (rule io_bind_InrE)
  have "written_paths t1 = concat (map (\<lambda>p. []) slides)
        \<and> clips = map (\<lambda>p. set_duration (new_image_clip p) 4) slides"
    by (rule io_mapM_written [OF 1])
       (auto simp: io_defs written_paths_def List.map_filter_def split: sum.splits)
  then have 4: "written_paths t1 = []" by simp
  from 2 have "p = out \<and> written_paths t2 = [out]"
    by (auto simp: io_defs written_paths_def List.map_filter_def split: sum.splits)
  with 3 4 show ?thesis by (simp add: written_paths_append)
qed

lemma process_text_written:
  assumes "process_text env ttl body = (t, Inr r)"
  shows "r = Done (video_path_of (utc_today env))
     \<and> written_paths t = map slide_path SECTION_KEYS
          @ [narration_path (utc_today env), video_path_of (utc_today env)]"
proof -
  let ?today = "utc_today env"
  from assms [unfolded process_text_def Let_def] obtain t1 summary u1 where
    a: "summarize_text_ja env body = (t1, Inr summary)" and
    b: "io_bind (build_slide_structure env ttl summary) (\<lambda>structure.
         io_bind (render_slides env structure) (\<lambda>slide_files.
         io_bind (voicevox_tts env summary (narration_name ?today) DEFAULT_SPEED) (\<lambda>audio_path.
         io_bind (generate_video env slide_files audio_path (video_path_of ?today)) (\<lambda>_.
         io_return (Done (video_path_of ?today)))))) = (u1, Inr r)" and
    a2: "t = t1 @ u1"
    by (rule io_bind_InrE)
  from b obtain t2 slides u2 where
    c: "build_slide_structure env ttl summary = (t2, Inr slides)" and
    d: "io_bind (render_slides env slides) (\<lambda>slide_files.
         io_bind (voicevox_tts env summary (narration_name ?today) DEFAULT_SPEED) (\<lambda>audio_path.
         io_bind (generate_video env slide_files audio_path (video_path_of ?today)) (\<lambda>_.
         io_return (Done (video_path_of ?today))))) = (u2, Inr r)" and
    c2: "u1 = t2 @ u2"
    by (rule io_bind_InrE)
  from d obtain t3 slide_files u3 where
    e: "render_slides env slides = (t3, Inr slide_files)" and
    f: "io_bind (voicevox_tts env summary (narration_name ?today) DEFAULT_SPEED) (\<lambda>audio_path.
         io_bind (generate_video env slide_files audio_path (video_path_of ?today)) (\<lambda>_.
         io_return (Done (video_path_of ?today)))) = (u3, Inr r)" and
    e2: "u2 = t3 @ u3"
    by (rule io_bind_InrE)
  from f obtain t4 audio_path u4 where
    g: "voicevox_tts env summary (narration_name ?today) DEFAULT_SPEED = (t4, Inr audio_path)" and
    h: "io_bind (generate_video env slide_files audio_path (video_path_of ?today)) (\<lambda>_.
         io_return (Done (video_path_of ?today))) = (u4, Inr r)" and
    g2: "u3 = t4 @ u4"
    by (rule io_bind_InrE)
  from h obtain t5 p u5 where
    i: "generate_video env slide_files audio_path (video_path_of ?today) = (t5, Inr p)" and
    j: "io_return (Done (video_path_of ?today)) = (u5, Inr r)" and
    i2: "u4 = t5 @ u5"
    by (rule io_bind_InrE)
  from j have k: "u5 = []" "r = Done (video_path_of ?today)"
    by (auto simp: io_return_def)
  have w1: "written_paths t1 = []" using summarize_written [of env body] a by simp
  have w2: "written_paths t2 = []" using build_written [of env ttl summary] c by simp
  have w3: "written_paths t3 = map slide_path SECTION_KEYS"
    using render_slides_written [OF e] by simp
  have w4: "written_paths t4 = [narration_path ?today]"
    using voicevox_tts_written [OF g] by (simp add: narration_path_def)
  have w5: "written_paths t5 = [video_path_of ?today]"
    using generate_video_written [OF i] by simp
  show ?thesis
    by (simp add: a2 c2 e2 g2 i2 k w1 w2 w3 w4 w5 written_paths_append written_paths_Nil)
qed

lemma process_entry_written:
  assumes "process_entry env p = (t, Inr r)"
  shows "r = Done (video_path_of (utc_today env))
     \<and> (\<exists>pre. (pre = [] \<or> pre = [pdf_path_of p])
          \<and> written_paths t = pre @ map slide_path SECTION_KEYS
               @ [narration_path (utc_today env), video_path_of (utc_today env)])"
proof -
  from assms [unfolded process_entry_def Let_def] obtain t1 pdf_path u1 where
    c: "download_pdf env (pdf_url_of p) (safe_filename (title p) @ str ''.pdf'')
          = (t1, Inr pdf_path)" and
    d: "io_bind (extract_text env pdf_path) (\<lambda>text. process_text env (title p) text)
          = (u1, Inr r)" and
    c2: "t = t1 @ u1"
    by (rule io_bind_InrE)
  from d obtain t2 body u2 where
    e: "extract_text env pdf_path = (t2, Inr body)" and
    f: "process_text env (title p) body = (u2, Inr r)" and
    e2: "u1 = t2 @ u2"
    by (rule io_bind_InrE)
  have w1: "written_paths t1 = [] \<or> written_paths t1 = [pdf_path_of p]"
    using download_pdf_written [OF c] by (auto simp: pdf_path_of_def)
  have w2: "written_paths t2 = []" using extract_text_written [of env pdf_path] e by simp
  from process_text_written [OF f] have
    v: "r = Done (video_path_of (utc_today env))" and
    w3: "written_paths u2 = map slide_path SECTION_KEYS
          @ [narration_path (utc_today env), video_path_of (utc_today env)]"
    by auto
  have "written_paths t = written_paths t1 @ map slide_path SECTION_KEYS
          @ [narration_path (utc_today env), video_path_of (utc_today env)]"
    by (simp add: c2 e2 w2 w3 written_paths_append)
  with w1 v show ?thesis by blast
qed

lemma main_written:
  assumes "main env = (t, Inr (Done v))"
  shows "v = video_path_of (utc_today env)
     \<and> (\<exists>p ps pre. feed_parse env feed_url = Inr (p # ps)
          \<and> (pre = [] \<or> pre = [pdf_path_of p])
          \<and> written_paths t = pre @ map slide_path SECTION_KEYS
               @ [narration_path (utc_today env), video_path_of (utc_today env)])"
proof -
  from assms [unfolded main_def] obtain t0 papers u0 where
    a: "fetch_arxiv_papers env = (t0, Inr papers)" and
    b: "(case papers of [] \<Rightarrow> io_return NoWork | e # _ \<Rightarrow> process_entry env e)
          = (u0, Inr (Done v))" and
    a2: "t = t0 @ u0"
    by (rule io_bind_InrE)
  from a have feed: "feed_parse env feed_url = Inr papers" and t0: "t0 = [FeedParse feed_url]"
    by (auto simp: fetch_arxiv_papers_def io_call_def)
  from b obtain p ps where papers: "papers = p # ps"
    by (cases papers) (auto simp: io_return_def)
  with b have c: "process_entry env p = (u0, Inr (Done v))" by simp
  have w0: "written_paths t0 = []" by (simp add: t0 written_paths_def List.map_filter_def)
  from process_entry_written [OF c] obtain pre where
    v: "v = video_path_of (utc_today env)" and
    pre: "pre = [] \<or> pre = [pdf_path_of p]" and
    w: "written_paths u0 = pre @ map slide_path SECTION_KEYS
          @ [narration_path (utc_today env), video_path_of (utc_today env)]"
    by auto
  have "written_paths t = pre @ map slide_path SECTION_KEYS
          @ [narration_path (utc_today env), video_path_of (utc_today env)]"
    by (simp add: a2 w0 w written_paths_append)
  with pre feed papers v show ?thesis by blast
qed

lemma dated_paths_distinct:
  "today \<noteq> today' \<Longrightarrow>
   narration_path today \<noteq> narration_path today' \<and> video_path_of today \<noteq> video_path_of today'"
  by (simp add: narration_path_def narration_name_def video_path_of_def os_path_join_def
      SAVE_DIR_def eval_str)




section \<open>A complete run in the example world\<close>

lemmas eval_strip = py_strip_def strip_with_def py_isspace_def

lemma demo_run_snd:
  "snd (main (demo_env d ttl)) = Inr (Done (video_path_of d))"
  by (simp add: eval_run demo_env_def demo_entry_def demo_response_def SECTION_KEYS_def)

lemma demo_run_written:
  "written_paths (fst (main (demo_env d ttl)))
     = map slide_path SECTION_KEYS @ [narration_path d, video_path_of d]"
  by (simp add: eval_run demo_env_def demo_entry_def demo_response_def SECTION_KEYS_def narration_path_def)



lemma strip_demo: "py_strip demo_response = str ''Outline'' @ [NL] @ str ''METHOD: old'' @ [NL] @ str ''METHOD: uses X''"
  by (simp add: demo_response_def eval_strip eval_str)

section \<open>The outline parser\<close>




section \<open>Voice lookup\<close>

text \<open>
  C3 (as the code has it). When the catalog holds no voice with the given name that has
  the given style, \<open>get_speaker_id\<close> finds no identifier, for every name and style.
  \<open>voicevox_tts\<close> takes no voice: it always looks up the default name and style of
  \<open>get_speaker_id\<close>. When that voice has no exact match in the catalog, \<open>voicevox_tts\<close>
  raises its voice-not-found error, and the only call made before the failure is the
  listing of the catalog: neither the audio-query nor the synthesis endpoint is called.
\<close>

theorem default_voice_not_found_before_synthesis:
  assumes "get_speakers env = Inr catalog"
  shows "(\<not> (\<exists>sp\<in>set catalog. speaker_name sp = name
               \<and> (\<exists>st\<in>set (styles sp). style_name st = sty))
          \<longrightarrow> get_speaker_id env name sty = ([GetSpeakers], Inr None))
     \<and> (\<not> (\<exists>sp\<in>set catalog. speaker_name sp = DEFAULT_NAME
               \<and> (\<exists>st\<in>set (styles sp). style_name st = DEFAULT_STYLE))
          \<longrightarrow> voicevox_tts env narration filename speed = ([GetSpeakers], Inl voice_not_found))"
proof -
  have "get_speaker_id env name sty = ([GetSpeakers], Inr None)"
    if "\<not> (\<exists>sp\<in>set catalog. speaker_name sp = name
               \<and> (\<exists>st\<in>set (styles sp). style_name st = sty))"
    using assms find_speaker_None [OF that] by (simp add: get_speaker_id_def io_defs)
  moreover have "voicevox_tts env narration filename speed = ([GetSpeakers], Inl voice_not_found)"
    if "\<not> (\<exists>sp\<in>set catalog. speaker_name sp = DEFAULT_NAME
               \<and> (\<exists>st\<in>set (styles sp). style_name st = DEFAULT_STYLE))"
    using assms find_speaker_None [OF that] by (rule tts_not_found)
  ultimately show ?thesis by blast
qed

text \<open>
  A catalog that holds the default name with another style, and the default style under
  another name: no exact match for the default voice.
\<close>

theorem default_voice_not_found_before_synthesis_witness:
  "voicevox_tts
     (offline_env\<lparr>get_speakers :=
        Inr [\<lparr>speaker_name = DEFAULT_NAME,
              styles = [\<lparr>style_name = str ''whisper'', style_id = 36\<rparr>]\<rparr>,
             \<lparr>speaker_name = str ''Zundamon'',
              styles = [\<lparr>style_name = DEFAULT_STYLE, style_id = 3\<rparr>]\<rparr>]\<rparr>)
     (str ''hello'') (str ''narration_20240101.wav'') DEFAULT_SPEED
   = ([GetSpeakers], Inl voice_not_found)
   \<and> get_speaker_id
     (offline_env\<lparr>get_speakers :=
        Inr [\<lparr>speaker_name = DEFAULT_NAME,
              styles = [\<lparr>style_name = str ''whisper'', style_id = 36\<rparr>]\<rparr>,
             \<lparr>speaker_name = str ''Zundamon'',
              styles = [\<lparr>style_name = DEFAULT_STYLE, style_id = 3\<rparr>]\<rparr>]\<rparr>)
     (str ''Zundamon'') (str ''whisper'')
   = ([GetSpeakers], Inr None)"
proof -
  let ?cat = "[\<lparr>speaker_name = DEFAULT_NAME,
              styles = [\<lparr>style_name = str ''whisper'', style_id = 36\<rparr>]\<rparr>,
             \<lparr>speaker_name = str ''Zundamon'',
              styles = [\<lparr>style_name = DEFAULT_STYLE, style_id = 3\<rparr>]\<rparr>]"
  let ?E = "offline_env\<lparr>get_speakers := Inr ?cat\<rparr>"
  have h1: "get_speakers ?E = Inr ?cat" by simp
  have h2: "\<not> (\<exists>sp\<in>set ?cat. speaker_name sp = DEFAULT_NAME
              \<and> (\<exists>st\<in>set (styles sp). style_name st = DEFAULT_STYLE))"
    by (simp add: DEFAULT_NAME_def DEFAULT_STYLE_def eval_str)
  have h3: "\<not> (\<exists>sp\<in>set ?cat. speaker_name sp = str ''Zundamon''
              \<and> (\<exists>st\<in>set (styles sp). style_name st = str ''whisper''))"
    by (simp add: DEFAULT_NAME_def DEFAULT_STYLE_def eval_str)
  note c = default_voice_not_found_before_synthesis [OF h1,
      where name = "str ''Zundamon''" and sty = "str ''whisper''"
        and narration = "str ''hello''" and filename = "str ''narration_20240101.wav''"
        and speed = DEFAULT_SPEED]
  from c h2 h3 show ?thesis by blast
qed

text \<open>
  C3 as the specification words it fails: in the example world the catalog holds the
  default voice only, so the voice \<open>Zundamon\<close> with style \<open>whisper\<close> has no match and its
  lookup finds nothing; \<open>voicevox_tts\<close> still does not fail, and calls both endpoints.
\<close>

theorem any_voice_not_found_counterexample:
  "get_speaker_id (demo_env (str ''20240101'') (str ''Paper A''))
       (str ''Zundamon'') (str ''whisper'')
     = ([GetSpeakers], Inr None)
   \<and> voicevox_tts (demo_env (str ''20240101'') (str ''Paper A''))
       (str ''hello'') (str ''narration_20240101.wav'') DEFAULT_SPEED
     = ([GetSpeakers,
         PostAudioQuery (str ''hello'') 2,
         PostSynthesis 2 [(str ''speedScale'', JNum DEFAULT_SPEED)],
         FileWrite (str ''outputs/narration_20240101.wav'') []],
        Inr (str ''outputs/narration_20240101.wav''))"
proof -
  let ?E = "demo_env (str ''20240101'') (str ''Paper A'')"
  have 1: "get_speaker_id ?E (str ''Zundamon'') (str ''whisper'') = ([GetSpeakers], Inr None)"
    by (simp add: get_speaker_id_def io_defs demo_env_def DEFAULT_NAME_def eval_str)
  have 2: "find_speaker
             [\<lparr>speaker_name = DEFAULT_NAME,
               styles = [\<lparr>style_name = DEFAULT_STYLE, style_id = 2\<rparr>]\<rparr>]
             DEFAULT_NAME DEFAULT_STYLE = Some 2"
    by simp
  have 3: "py_replace (str ''**'') [] (str ''hello'') = str ''hello''"
    by (simp add: eval_str)
  have 4: "os_path_join SAVE_DIR (str ''narration_20240101.wav'')
             = str ''outputs/narration_20240101.wav''"
    by (simp add: os_path_join_def SAVE_DIR_def suffix_to_prefix eval_str)
  have "voicevox_tts ?E (str ''hello'') (str ''narration_20240101.wav'') DEFAULT_SPEED
     = ([GetSpeakers,
         PostAudioQuery (str ''hello'') 2,
         PostSynthesis 2 [(str ''speedScale'', JNum DEFAULT_SPEED)],
         FileWrite (str ''outputs/narration_20240101.wav'') []],
        Inr (str ''outputs/narration_20240101.wav''))"
    unfolding voicevox_tts_def get_speaker_id_def Let_def 3 4
    by (simp add: io_defs demo_env_def 2 dict_set_def)
  with 1 show ?thesis by simp
qed

section \<open>The summarizer\<close>

text \<open>
  C4. For every text, the empty one included, \<open>summarize_text_ja\<close> makes exactly one call
  to the generative service, and the text inside the prompt is the first 5000 characters of
  the input: at most 5000 characters, a prefix of the input, the input itself when it is
  no longer than that. When the service answers \<open>r\<close>, the result is \<open>r\<close> without its leading
  and trailing whitespace: only whitespace is cut off at both ends, and the result neither
  starts nor ends with whitespace.
\<close>

theorem summarizer_caps_input:
  "fst (summarize_text_ja env text) = [GenerateContent (summary_prompt (take 5000 text))]
   \<and> length (take 5000 text) \<le> 5000
   \<and> prefix (take 5000 text) text
   \<and> (length text \<le> 5000 \<longrightarrow> take 5000 text = text)
   \<and> (generate_content env (summary_prompt (take 5000 text)) = Inr r \<longrightarrow>
        snd (summarize_text_ja env text) = Inr (py_strip r)
        \<and> (\<exists>pre post. r = pre @ py_strip r @ post
              \<and> list_all py_isspace pre \<and> list_all py_isspace post)
        \<and> \<not> (py_strip r \<noteq> [] \<and> py_isspace (hd (py_strip r)))
        \<and> \<not> (py_strip r \<noteq> [] \<and> py_isspace (last (py_strip r))))"
proof -
  have 1: "fst (summarize_text_ja env text) = [GenerateContent (summary_prompt (take 5000 text))]"
    using summarize_trace [of env "text"] by (simp add: MAX_CHARS_def)
  have 2: "prefix (take 5000 text) text" by (rule take_is_prefix)
  have 3: "snd (summarize_text_ja env text) = Inr (py_strip r)"
    if "generate_content env (summary_prompt (take 5000 text)) = Inr r"
    using that summarize_result [of env "text" r] by (simp add: MAX_CHARS_def)
  have "r = takeWhile py_isspace r @ py_strip r
            @ rev (takeWhile py_isspace (rev (dropWhile py_isspace r)))"
    unfolding py_strip_def by (rule strip_with_decomp)
  moreover have "list_all py_isspace (takeWhile py_isspace r)"
    by (auto simp: list_all_iff dest: set_takeWhileD)
  moreover have "list_all py_isspace (rev (takeWhile py_isspace (rev (dropWhile py_isspace r))))"
    by (auto simp: list_all_iff dest: set_takeWhileD)
  ultimately have 4: "\<exists>pre post. r = pre @ py_strip r @ post
              \<and> list_all py_isspace pre \<and> list_all py_isspace post"
    by blast
  have 5: "\<not> (py_strip r \<noteq> [] \<and> py_isspace (hd (py_strip r)))"
       "\<not> (py_strip r \<noteq> [] \<and> py_isspace (last (py_strip r)))"
    using strip_with_ends [of py_isspace r] by (auto simp: py_strip_def)
  from 1 2 3 4 5 show ?thesis by simp
qed

text \<open>The empty text, and a text of 5001 characters of which 5000 are submitted.\<close>

theorem summarizer_caps_input_witness:
  "summarize_text_ja (demo_env (str ''20240101'') (str ''Paper A'')) []
     = ([GenerateContent (summary_prompt [])],
        Inr (str ''Outline'' @ [NL] @ str ''METHOD: old'' @ [NL] @ str ''METHOD: uses X''))
   \<and> fst (summarize_text_ja offline_env (replicate 5001 97))
       = [GenerateContent (summary_prompt (replicate 5000 97))]"
proof -
  let ?E = "demo_env (str ''20240101'') (str ''Paper A'')"
  have h: "generate_content ?E (summary_prompt (take 5000 [])) = Inr demo_response"
    by (simp add: demo_env_def)
  from summarizer_caps_input [of ?E "[]" demo_response] h
  have "fst (summarize_text_ja ?E []) = [GenerateContent (summary_prompt [])]"
    and "snd (summarize_text_ja ?E []) = Inr (py_strip demo_response)"
    by simp_all
  then have 1: "summarize_text_ja ?E [] = ([GenerateContent (summary_prompt [])],
        Inr (str ''Outline'' @ [NL] @ str ''METHOD: old'' @ [NL] @ str ''METHOD: uses X''))"
    by (simp add: prod_eq_iff strip_demo)
  from summarizer_caps_input [of offline_env "replicate 5001 97"]
  have 2: "fst (summarize_text_ja offline_env (replicate 5001 97))
       = [GenerateContent (summary_prompt (replicate 5000 97))]"
    by simp
  from 1 2 show ?thesis by simp
qed

section \<open>The runner\<close>

text \<open>
  C7. When the feed returns no entry, \<open>main\<close> ends at its early return: the run's only
  external call is the feed query (no download, extraction, summary, outline, rendering,
  narration or assembly call), and no exception is raised.
\<close>

theorem empty_feed_no_work:
  assumes "feed_parse env feed_url = Inr []"
  shows "main env = ([FeedParse feed_url], Inr NoWork)"
  using assms by (simp add: main_def fetch_arxiv_papers_def io_defs)

text \<open>The world with the empty feed.\<close>

theorem empty_feed_no_work_witness:
  "feed_parse offline_env feed_url = Inr []
   \<and> main offline_env = ([FeedParse feed_url], Inr NoWork)"
proof -
  have h: "feed_parse offline_env feed_url = Inr []" by (simp add: offline_env_def)
  from h empty_feed_no_work [OF h] show ?thesis by simp
qed

section \<open>Text extraction\<close>

text \<open>
  C8. \<open>extract_text\<close> returns a string for every input and never raises. For an absent
  document the string is empty, and so it is when opening the document fails or when
  reading one of its pages fails.
\<close>

theorem extract_text_never_raises:
  "(\<exists>t s. extract_text env p = (t, Inr s))
   \<and> extract_text env None = ([], Inr [])
   \<and> (fitz_open env path = Inl e \<longrightarrow> snd (extract_text env (Some path)) = Inr [])
   \<and> (fitz_open env path = Inr doc \<and> page_texts doc = Inl e \<longrightarrow>
        snd (extract_text env (Some path)) = Inr [])"
  using extract_text_returns [of env p] extract_text_None [of env]
    extract_text_open_fails [of env path e] extract_text_page_fails [of env path doc e]
  by blast

text \<open>A document that cannot be opened, and one whose second page cannot be read.\<close>

theorem extract_text_never_raises_witness:
  "extract_text offline_env (Some (str ''outputs/A_B_ Test.pdf''))
     = ([FitzOpen (str ''outputs/A_B_ Test.pdf'')], Inr [])
   \<and> snd (extract_text
        (offline_env\<lparr>fitz_open := (\<lambda>path. Inr [Inr (str ''page one''), Inl (LibraryError [])])\<rparr>)
        (Some (str ''outputs/A_B_ Test.pdf''))) = Inr []
   \<and> extract_text offline_env None = ([], Inr [])"
proof -
  let ?p = "str ''outputs/A_B_ Test.pdf''"
  let ?doc = "[Inr (str ''page one''), Inl (LibraryError [])]"
  let ?E = "offline_env\<lparr>fitz_open := (\<lambda>path. Inr ?doc)\<rparr>"
  have h1: "fitz_open offline_env ?p = Inl (LibraryError [])" by (simp add: offline_env_def)
  have h2: "fitz_open ?E ?p = Inr ?doc \<and> page_texts ?doc = Inl (LibraryError [])" by simp
  from extract_text_never_raises [where env = offline_env and path = ?p and e = "LibraryError []"] h1
  have 1: "snd (extract_text offline_env (Some ?p)) = Inr []" by blast
  have 2: "fst (extract_text offline_env (Some ?p)) = [FitzOpen ?p]"
    by (simp add: extract_text_def io_defs offline_env_def eval_str)
  from extract_text_never_raises [where env = ?E and path = ?p and doc = ?doc and e = "LibraryError []"] h2
  have 3: "snd (extract_text ?E (Some ?p)) = Inr []" by blast
  from 1 2 3 show ?thesis by (simp add: prod_eq_iff extract_text_None)
qed


section \<open>A failed download\<close>

lemma fst_io_bind:
  "fst (io_bind m f) = fst m @ (case snd m of Inl e \<Rightarrow> [] | Inr x \<Rightarrow> fst (f x))"
  by (simp add: io_bind_def split: prod.splits sum.splits)

lemma process_text_starts:
  "\<exists>t. fst (process_text env ttl body) = GenerateContent (summary_prompt (take MAX_CHARS body)) # t"
  by (simp add: process_text_def fst_io_bind summarize_trace)

lemma process_entry_no_pdf:
  assumes "download_pdf env (pdf_url_of p) (safe_filename (title p) @ str ''.pdf'') = (t, Inr None)"
  shows "process_entry env p
           = (t @ fst (process_text env (title p) []), snd (process_text env (title p) []))"
  using assms
  by (simp add: process_entry_def Let_def extract_text_None io_bind_def split: prod.splits)

lemma main_first_entry:
  assumes "feed_parse env feed_url = Inr (p # ps)"
  shows "main env = (FeedParse feed_url # fst (process_entry env p), snd (process_entry env p))"
  using assms by (simp add: main_def fetch_arxiv_papers_def io_bind_call_Inr)

text \<open>
  C9 (as the code has it). When the download of \<open>url\<close> fails (\<open>requests.get\<close> raises, as
  it does for a transport error or a timeout, or the response has a status of class 4xx or
  5xx, which \<open>raise_for_status\<close> rejects), \<open>download_pdf\<close> returns \<open>None\<close> and raises nothing. \<open>extract_text\<close> turns \<open>None\<close> into the
  empty text, and the run goes on: after the feed query and the failed request, \<open>main\<close>
  continues with the rest of the pipeline on the empty text, whose first call submits the
  summary prompt of the empty text.
\<close>

theorem download_failure_degrades:
  assumes "requests_get env url 20 = Inl e
           \<or> (\<exists>res. requests_get env url 20 = Inr res
                 \<and> 400 \<le> status_code res \<and> status_code res < 600)"
  shows "download_pdf env url filename = ([RequestsGet url 20], Inr None)
     \<and> extract_text env None = ([], Inr [])
     \<and> (feed_parse env feed_url = Inr (p # ps) \<and> url = pdf_url_of p \<longrightarrow>
          main env = (FeedParse feed_url # RequestsGet url 20
                        # fst (process_text env (title p) []),
                      snd (process_text env (title p) [])))
     \<and> (\<exists>t. fst (process_text env (title p) []) = GenerateContent (summary_prompt []) # t)"
proof -
  have dl: "download_pdf env url fn = ([RequestsGet url 20], Inr None)" for fn
    using assms download_pdf_get_fails [of env url e fn] download_pdf_bad_status [of env url _ fn]
    by blast
  have m: "main env = (FeedParse feed_url # RequestsGet url 20
                        # fst (process_text env (title p) []),
                      snd (process_text env (title p) []))"
    if "feed_parse env feed_url = Inr (p # ps) \<and> url = pdf_url_of p"
  proof -
    from that have f: "feed_parse env feed_url = Inr (p # ps)" and u: "url = pdf_url_of p"
      by simp_all
    have "process_entry env p
           = ([RequestsGet url 20] @ fst (process_text env (title p) []),
              snd (process_text env (title p) []))"
      by (rule process_entry_no_pdf) (simp only: dl u [symmetric])
    with main_first_entry [OF f] show ?thesis by simp
  qed
  have s: "\<exists>t. fst (process_text env (title p) []) = GenerateContent (summary_prompt []) # t"
    using process_text_starts [of env "title p" "[]"] by simp
  from dl m s show ?thesis by (simp add: extract_text_None)
qed

text \<open>A run whose download times out and which still ends with the video.\<close>

theorem download_failure_degrades_witness:
  "download_pdf (demo_env (str ''20240101'') (str ''A/B: Test?''))
       (str ''http://arxiv.org/pdf/2401.00001v1.pdf'') (str ''A_B_ Test.pdf'')
     = ([RequestsGet (str ''http://arxiv.org/pdf/2401.00001v1.pdf'') 20], Inr None)
   \<and> take 3 (fst (main (demo_env (str ''20240101'') (str ''A/B: Test?''))))
       = [FeedParse feed_url, RequestsGet (str ''http://arxiv.org/pdf/2401.00001v1.pdf'') 20,
          GenerateContent (summary_prompt [])]
   \<and> snd (main (demo_env (str ''20240101'') (str ''A/B: Test?'')))
       = Inr (Done (video_path_of (str ''20240101'')))"
proof -
  let ?E = "demo_env (str ''20240101'') (str ''A/B: Test?'')"
  let ?p = "demo_entry (str ''A/B: Test?'')"
  let ?url = "str ''http://arxiv.org/pdf/2401.00001v1.pdf''"
  have h: "requests_get ?E ?url 20 = Inl Timeout
           \<or> (\<exists>res. requests_get ?E ?url 20 = Inr res
                 \<and> 400 \<le> status_code res \<and> status_code res < 600)"
    by (simp add: demo_env_def)
  have f: "feed_parse ?E feed_url = Inr (?p # []) \<and> ?url = pdf_url_of ?p"
    by (simp add: demo_env_def demo_entry_def pdf_url_of_def eval_str)
  note c = download_failure_degrades [OF h, where filename = "str ''A_B_ Test.pdf''"
      and p = ?p and ps = "[]"]
  from c have 1: "download_pdf ?E ?url (str ''A_B_ Test.pdf'')
     = ([RequestsGet ?url 20], Inr None)"
    by (rule conjunct1)
  from c f have 2: "main ?E = (FeedParse feed_url # RequestsGet ?url 20
                        # fst (process_text ?E (title ?p) []),
                      snd (process_text ?E (title ?p) []))"
    by blast
  from c obtain t where 3: "fst (process_text ?E (title ?p) []) = GenerateContent (summary_prompt []) # t"
    by blast
  from 2 3 have 4: "take 3 (fst (main ?E))
       = [FeedParse feed_url, RequestsGet ?url 20, GenerateContent (summary_prompt [])]"
    by simp
  from 1 4 show ?thesis by (simp add: demo_run_snd)
qed

text \<open>
  C9 as the specification words it fails for a status that is neither a success nor of
  class 4xx or 5xx: a final response with status 300 is saved and its path returned.
\<close>

theorem other_status_saved_counterexample:
  "requests_get
       ((demo_env (str ''20240101'') (str ''A/B: Test?''))
          \<lparr>requests_get := (\<lambda>url timeout. Inr \<lparr>status_code = 300, content = []\<rparr>)\<rparr>)
       (str ''http://arxiv.org/pdf/2401.00001v1.pdf'') 20
     = Inr \<lparr>status_code = 300, content = []\<rparr>
   \<and> download_pdf
       ((demo_env (str ''20240101'') (str ''A/B: Test?''))
          \<lparr>requests_get := (\<lambda>url timeout. Inr \<lparr>status_code = 300, content = []\<rparr>)\<rparr>)
       (str ''http://arxiv.org/pdf/2401.00001v1.pdf'') (str ''A_B_ Test.pdf'')
     = ([RequestsGet (str ''http://arxiv.org/pdf/2401.00001v1.pdf'') 20,
         FileWrite (str ''outputs/A_B_ Test.pdf'') []],
        Inr (Some (str ''outputs/A_B_ Test.pdf'')))"
proof -
  have 1: "os_path_join SAVE_DIR (str ''A_B_ Test.pdf'') = str ''outputs/A_B_ Test.pdf''"
    by (simp add: os_path_join_def SAVE_DIR_def suffix_to_prefix eval_str)
  show ?thesis
    unfolding download_pdf_def Let_def 1
    by (simp add: raise_for_status_def io_defs demo_env_def)
qed

section \<open>Video assembly\<close>

lemma image_clips_ok:
  assumes "\<forall>p\<in>set ps. image_clip env p = Inr ()"
  shows "io_mapM (\<lambda>p. io_bind (io_call (ImageClip p) (image_clip env p))
                        (\<lambda>_. io_return (set_duration (new_image_clip p) d))) ps
          = (map ImageClip ps, Inr (map (\<lambda>p. set_duration (new_image_clip p) d) ps))"
  by (rule io_mapM_all_ok) (use assms in \<open>simp add: io_defs\<close>)

lemma generate_video_loaded:
  assumes "\<forall>p\<in>set slide_paths. image_clip env p = Inr ()"
    and "audio_file_clip env audio_path = Inr d"
    and "slide_paths \<noteq> []"
  shows "generate_video env slide_paths audio_path output_path
     = (map ImageClip slide_paths
        @ [AudioFileClip audio_path,
           WriteVideofile output_path
             \<lparr>images = slide_paths, duration = Some (length slide_paths * 4),
                audio = Some \<lparr>audio_source = audio_path, audio_duration = d\<rparr>\<rparr> 24],
        case write_videofile env output_path
               \<lparr>images = slide_paths, duration = Some (length slide_paths * 4),
                  audio = Some \<lparr>audio_source = audio_path, audio_duration = d\<rparr>\<rparr> 24 of
          Inl e \<Rightarrow> Inl e
        | Inr u \<Rightarrow> Inr output_path)"
  unfolding generate_video_def image_clips_ok [OF assms(1)]
  by (simp add: concatenate_slides [OF assms(3)] assms(2) set_audio_def Let_def io_defs
      split: sum.splits)

text \<open>
  C6 (as the code has it). For five slide images that load and a narration of any
  duration \<open>d\<close>, \<open>generate_video\<close> hands \<open>write_videofile\<close> a clip that shows the five
  images, has duration 5 times 4 seconds whatever \<open>d\<close> is, and carries the whole narration
  as its audio track; the frame rate passed is 24; when the write succeeds the output path
  is returned. The file written lasts as long as the longer of the 20 seconds of slides and
  the narration.
\<close>

theorem slide_sequence_duration_fixed:
  assumes "\<forall>p\<in>set slide_paths. image_clip env p = Inr ()"
    and "audio_file_clip env audio_path = Inr d"
    and "length slide_paths = 5"
  shows "\<exists>final.
           fst (generate_video env slide_paths audio_path output_path)
             = map ImageClip slide_paths
               @ [AudioFileClip audio_path, WriteVideofile output_path final 24]
         \<and> duration final = Some (5 * 4)
         \<and> images final = slide_paths
         \<and> audio final = Some \<lparr>audio_source = audio_path, audio_duration = d\<rparr>
         \<and> written_duration final = Some (max (5 * 4) d)
         \<and> (write_videofile env output_path final 24 = Inr () \<longrightarrow>
              snd (generate_video env slide_paths audio_path output_path) = Inr output_path)"
proof -
  let ?final = "\<lparr>images = slide_paths, duration = Some (length slide_paths * 4),
                  audio = Some \<lparr>audio_source = audio_path, audio_duration = d\<rparr>\<rparr>"
  from assms(3) have ne: "slide_paths \<noteq> []" by auto
  note gv = generate_video_loaded [OF assms(1) assms(2) ne, of output_path]
  have tr: "fst (generate_video env slide_paths audio_path output_path)
             = map ImageClip slide_paths
               @ [AudioFileClip audio_path, WriteVideofile output_path ?final 24]"
    unfolding gv by simp
  have du: "duration ?final = Some (5 * 4)" using assms(3) by simp
  have wd: "written_duration ?final = Some (max (5 * 4) d)"
    using assms(3) by (simp add: written_duration_def)
  have re: "snd (generate_video env slide_paths audio_path output_path) = Inr output_path"
    if "write_videofile env output_path ?final 24 = Inr ()"
    unfolding gv using that by simp
  from tr du wd re show ?thesis by (intro exI [of _ ?final]) simp
qed

text \<open>Five slides and a narration of 30 seconds: the clip of slides still lasts 20 seconds.\<close>

theorem slide_sequence_duration_fixed_witness:
  "(\<exists>final.
      fst (generate_video (demo_env (str ''20240101'') (str ''Paper A''))
             (map slide_path SECTION_KEYS) (narration_path (str ''20240101''))
             (video_path_of (str ''20240101'')))
        = map ImageClip (map slide_path SECTION_KEYS)
          @ [AudioFileClip (narration_path (str ''20240101'')),
             WriteVideofile (video_path_of (str ''20240101'')) final 24]
      \<and> duration final = Some 20
      \<and> audio final
          = Some \<lparr>audio_source = narration_path (str ''20240101''), audio_duration = 30\<rparr>
      \<and> written_duration final = Some 30)
   \<and> snd (generate_video (demo_env (str ''20240101'') (str ''Paper A''))
            (map slide_path SECTION_KEYS) (narration_path (str ''20240101''))
            (video_path_of (str ''20240101'')))
       = Inr (video_path_of (str ''20240101''))"
proof -
  let ?E = "demo_env (str ''20240101'') (str ''Paper A'')"
  have h1: "\<forall>p\<in>set (map slide_path SECTION_KEYS). image_clip ?E p = Inr ()"
    by (simp add: demo_env_def)
  have h2: "audio_file_clip ?E (narration_path (str ''20240101'')) = Inr 30"
    by (simp add: demo_env_def)
  have h3: "length (map slide_path SECTION_KEYS) = 5"
    by (simp add: SECTION_KEYS_def)
  have h4: "write_videofile ?E path clip fps = Inr ()" for path clip fps
    by (simp add: demo_env_def)
  from slide_sequence_duration_fixed [OF h1 h2 h3, of "video_path_of (str ''20240101'')"] h4
  show ?thesis by auto
qed

text \<open>
  C6 as the specification words it fails: with five slides and a narration of 30 seconds
  the file written lasts 30 seconds, not 5 times 4.
\<close>

theorem video_duration_counterexample:
  "generate_video (demo_env (str ''20240101'') (str ''Paper A''))
       (map slide_path SECTION_KEYS) (narration_path (str ''20240101''))
       (video_path_of (str ''20240101''))
     = (map ImageClip (map slide_path SECTION_KEYS)
        @ [AudioFileClip (narration_path (str ''20240101'')),
           WriteVideofile (video_path_of (str ''20240101''))
             \<lparr>images = map slide_path SECTION_KEYS, duration = Some 20,
                audio = Some \<lparr>audio_source = narration_path (str ''20240101''),
                               audio_duration = 30\<rparr>\<rparr> 24],
        Inr (video_path_of (str ''20240101'')))
   \<and> written_duration
       \<lparr>images = map slide_path SECTION_KEYS, duration = Some 20,
          audio = Some \<lparr>audio_source = narration_path (str ''20240101''),
                         audio_duration = 30\<rparr>\<rparr>
     = Some 30
   \<and> written_duration
       \<lparr>images = map slide_path SECTION_KEYS, duration = Some 20,
          audio = Some \<lparr>audio_source = narration_path (str ''20240101''),
                         audio_duration = 30\<rparr>\<rparr>
     \<noteq> Some (5 * 4)"
proof -
  let ?E = "demo_env (str ''20240101'') (str ''Paper A'')"
  have h1: "\<forall>p\<in>set (map slide_path SECTION_KEYS). image_clip ?E p = Inr ()"
    by (simp add: demo_env_def)
  have h2: "audio_file_clip ?E (narration_path (str ''20240101'')) = Inr 30"
    by (simp add: demo_env_def)
  have h3: "map slide_path SECTION_KEYS \<noteq> []"
    by (simp add: SECTION_KEYS_def)
  have h4: "length (map slide_path SECTION_KEYS) * 4 = 20"
    by (simp add: SECTION_KEYS_def)
  have h5: "write_videofile ?E path clip fps = Inr ()" for path clip fps
    by (simp add: demo_env_def)
  show ?thesis
    unfolding generate_video_loaded [OF h1 h2 h3] h4
    by (simp add: h5 written_duration_def)
qed

section \<open>The paths a run writes\<close>

lemma pdf_name_not_absolute: "\<not> prefix [SLASH] (safe_filename s @ str ''.pdf'')"
proof (cases "safe_filename s")
  case Nil
  then show ?thesis by (simp add: eval_str)
next
  case (Cons c cs)
  then have "c \<in> set (safe_filename s)" by simp
  with set_safe_filename [of s] have "c \<notin> set unsafe_chars" by blast
  then have "c \<noteq> SLASH" by (auto simp: unsafe_chars_def SLASH_def)
  with Cons show ?thesis by simp
qed

lemma join_save_dir:
  "\<not> prefix [SLASH] b \<Longrightarrow> os_path_join SAVE_DIR b = SAVE_DIR @ [SLASH] @ b"
  by (simp add: os_path_join_def SAVE_DIR_def str_def suffix_to_prefix SLASH_def)

lemma pdf_paths_distinct:
  "safe_filename (title p) \<noteq> safe_filename (title q) \<Longrightarrow> pdf_path_of p \<noteq> pdf_path_of q"
  by (simp add: pdf_path_of_def join_save_dir [OF pdf_name_not_absolute])

text \<open>
  C5 (as the code has it). A run that ends with the video has written, in this order: the
  document (only when the download succeeded), the five slide images, the narration and
  the video. The narration and video paths are built from the run's date stamp, and
  different date stamps give different narration and video paths; the document path is
  built from the sanitized title, and different sanitized titles give different document
  paths. The five slide paths are \<open>map slide_path SECTION_KEYS\<close>: they depend on nothing
  of the run.
\<close>

theorem run_written_paths:
  "(main env = (t, Inr (Done v)) \<longrightarrow>
      v = video_path_of (utc_today env)
      \<and> (\<exists>p ps pre. feed_parse env feed_url = Inr (p # ps)
            \<and> (pre = [] \<or> pre = [pdf_path_of p])
            \<and> written_paths t = pre @ map slide_path SECTION_KEYS
                 @ [narration_path (utc_today env), video_path_of (utc_today env)]))
   \<and> (today \<noteq> today' \<longrightarrow>
        narration_path today \<noteq> narration_path today'
        \<and> video_path_of today \<noteq> video_path_of today')
   \<and> (safe_filename (title p) \<noteq> safe_filename (title q) \<longrightarrow> pdf_path_of p \<noteq> pdf_path_of q)"
  using main_written [of env t v] dated_paths_distinct [of today today']
    pdf_paths_distinct [of p q]
  by blast

text \<open>The complete run of the example world.\<close>

theorem run_written_paths_witness:
  "snd (main (demo_env (str ''20240101'') (str ''Paper A'')))
     = Inr (Done (video_path_of (str ''20240101'')))
   \<and> written_paths (fst (main (demo_env (str ''20240101'') (str ''Paper A''))))
       = map slide_path SECTION_KEYS
         @ [narration_path (str ''20240101''), video_path_of (str ''20240101'')]
   \<and> narration_path (str ''20240101'') \<noteq> narration_path (str ''20240102'')
   \<and> video_path_of (str ''20240101'') \<noteq> video_path_of (str ''20240102'')
   \<and> pdf_path_of (demo_entry (str ''Paper A'')) \<noteq> pdf_path_of (demo_entry (str ''Paper B''))"
proof -
  let ?E = "demo_env (str ''20240101'') (str ''Paper A'')"
  have h1: "main ?E = (fst (main ?E), Inr (Done (video_path_of (str ''20240101''))))"
    by (simp add: prod_eq_iff demo_run_snd)
  have h2: "str ''20240101'' \<noteq> str ''20240102''" by (simp add: eval_str)
  have h3: "safe_filename (title (demo_entry (str ''Paper A'')))
            \<noteq> safe_filename (title (demo_entry (str ''Paper B'')))"
    by (simp add: demo_entry_def eval_safe_filename)
  note c = run_written_paths [where env = ?E and t = "fst (main ?E)"
      and v = "video_path_of (str ''20240101'')"
      and today = "str ''20240101''" and today' = "str ''20240102''"
      and p = "demo_entry (str ''Paper A'')" and q = "demo_entry (str ''Paper B'')"]
  from c h2 have 1: "narration_path (str ''20240101'') \<noteq> narration_path (str ''20240102'')
      \<and> video_path_of (str ''20240101'') \<noteq> video_path_of (str ''20240102'')"
    by blast
  from c h3 have 2: "pdf_path_of (demo_entry (str ''Paper A''))
      \<noteq> pdf_path_of (demo_entry (str ''Paper B''))"
    by blast
  from 1 2 show ?thesis by (simp add: demo_run_snd demo_run_written)
qed

text \<open>
  C5 as the specification words it fails: two runs on different days for different papers
  both write \<open>outputs/TITLE.png\<close>, and indeed the same five slide paths.
\<close>

theorem run_specific_paths_counterexample:
  "utc_today (demo_env (str ''20240101'') (str ''Paper A''))
     \<noteq> utc_today (demo_env (str ''20240102'') (str ''Paper B''))
   \<and> feed_parse (demo_env (str ''20240101'') (str ''Paper A'')) feed_url
     \<noteq> feed_parse (demo_env (str ''20240102'') (str ''Paper B'')) feed_url
   \<and> written_paths (fst (main (demo_env (str ''20240101'') (str ''Paper A''))))
       = map slide_path SECTION_KEYS
         @ [narration_path (str ''20240101''), video_path_of (str ''20240101'')]
   \<and> written_paths (fst (main (demo_env (str ''20240102'') (str ''Paper B''))))
       = map slide_path SECTION_KEYS
         @ [narration_path (str ''20240102''), video_path_of (str ''20240102'')]
   \<and> slide_path (str ''TITLE'')
       \<in> set (written_paths (fst (main (demo_env (str ''20240101'') (str ''Paper A'')))))
         \<inter> set (written_paths (fst (main (demo_env (str ''20240102'') (str ''Paper B'')))))"
proof -
  let ?A = "demo_env (str ''20240101'') (str ''Paper A'')"
  let ?B = "demo_env (str ''20240102'') (str ''Paper B'')"
  have 1: "utc_today ?A \<noteq> utc_today ?B"
    by (simp add: demo_env_def eval_str)
  have 2: "feed_parse ?A feed_url \<noteq> feed_parse ?B feed_url"
    by (simp add: demo_env_def demo_entry_def eval_str)
  have 3: "slide_path (str ''TITLE'')
             \<in> set (written_paths (fst (main ?A))) \<inter> set (written_paths (fst (main ?B)))"
    by (simp add: demo_run_written SECTION_KEYS_def)
  from 1 2 3 show ?thesis by (simp add: demo_run_written)
qed


end
